theory Spec2Isabelle
  imports Main "HOL-Library.AList" "HOL-Library.Char_ord" "HOL-Library.List_Lexorder"
begin

section \<open>Call arguments and the default key deriver\<close>

text \<open>
  The pool is called as \<^verbatim>\<open>pool.get(*args, **kwargs)\<close>. Argument values are hashable Python
  values; the model has \<^verbatim>\<open>None\<close>, integers, strings and tuples. The positional arguments are
  a list, the named arguments an association list in the order the caller supplied them (a
  Python dict keeps insertion order, and its keys are distinct).
\<close>

datatype pyval = PyNone | PyInt int | PyStr string | PyTuple "pyval list"

type_synonym args = "pyval list"
type_synonym kwargs = "(string \<times> pyval) list"

datatype error = KeyError string | RuntimeError string

text \<open>
  \<^verbatim>\<open>reduce_args\<close>: \<^verbatim>\<open>hash_values = [*args]\<close>, then for every key of \<^verbatim>\<open>sorted(kwargs)\<close> the key
  and \<^verbatim>\<open>kwargs[k]\<close> are appended, and the tuple of the list is hashed. Strings are ordered as
  Python orders them (lexicographically by character code). The subscript \<^verbatim>\<open>kwargs[k]\<close>
  raises \<^verbatim>\<open>KeyError\<close> on a missing key. Python's built-in \<^verbatim>\<open>hash\<close> is not part of the
  repository: it is the parameter \<open>hash\<close>, any function from the tuple to a key.
\<close>

fun append_kwargs :: "kwargs \<Rightarrow> string list \<Rightarrow> pyval list \<Rightarrow> error + pyval list" where
  "append_kwargs kwargs [] hash_values = Inr hash_values"
| "append_kwargs kwargs (k # ks) hash_values =
     (case map_of kwargs k of
        None \<Rightarrow> Inl (KeyError k)
      | Some v \<Rightarrow> append_kwargs kwargs ks (hash_values @ [PyStr k, v]))"

definition hash_values :: "args \<Rightarrow> kwargs \<Rightarrow> error + pyval list" where
  "hash_values args kwargs = append_kwargs kwargs (sort (map fst kwargs)) args"

definition reduce_args :: "(pyval list \<Rightarrow> 'k) \<Rightarrow> args \<Rightarrow> kwargs \<Rightarrow> error + 'k" where
  "reduce_args hash args kwargs =
     (case hash_values args kwargs of Inl e \<Rightarrow> Inl e | Inr hv \<Rightarrow> Inr (hash hv))"

section \<open>Resources and holders\<close>

text \<open>
  The pooled resource is the caller's \<^verbatim>\<open>AsyncContextManager\<close>. As the class \<^verbatim>\<open>_Test\<close> of the test
  suite does, it counts the calls of its entry and exit routines; \<open>enter_result\<close> is the value
  its \<^verbatim>\<open>__aenter__\<close> returns, \<open>None\<close> for Python's \<^verbatim>\<open>None\<close>. The caller's routines (key deriver,
  factory, entry, exit) are modelled as returning normally and without suspending, so every
  operation of the pool below is one atomic step of the cooperative scheduler.
\<close>

record 'v resource =
  enter_result :: "'v option"
  enter_called :: nat
  exit_called :: nat

definition resource_aenter :: "'v resource \<Rightarrow> 'v option \<times> 'v resource" where
  "resource_aenter r = (enter_result r, r\<lparr>enter_called := Suc (enter_called r)\<rparr>)"

definition resource_aexit :: "'v resource \<Rightarrow> 'v resource" where
  "resource_aexit r = r\<lparr>exit_called := Suc (exit_called r)\<rparr>"

text \<open>
  \<^verbatim>\<open>_Holder\<close>: the fields \<^verbatim>\<open>_value\<close>, \<^verbatim>\<open>_count\<close>, \<^verbatim>\<open>_called_aenter\<close>, \<^verbatim>\<open>_managed_value\<close> and
  \<^verbatim>\<open>_key\<close>. The field \<^verbatim>\<open>_cache\<close> is the one pool of the state below.
\<close>

record ('k, 'v) holder =
  h_value :: "'v resource"
  h_count :: int
  h_called_aenter :: bool
  h_managed_value :: "'v option"
  h_key :: 'k

definition new_holder :: "'k \<Rightarrow> 'v resource \<Rightarrow> ('k, 'v) holder" where
  "new_holder k v =
     \<lparr>h_value = v, h_count = 0, h_called_aenter = False, h_managed_value = None, h_key = k\<rparr>"

text \<open>\<^verbatim>\<open>_Holder.__aenter__\<close>: the count is incremented before anything can raise.\<close>

definition holder_aenter :: "('k, 'v) holder \<Rightarrow> (error + 'v) \<times> ('k, 'v) holder" where
  "holder_aenter ho =
     (let ho1 = ho\<lparr>h_count := h_count ho + 1\<rparr>;
          ho2 = (if \<not> h_called_aenter ho1
                 then (let (v, r) = resource_aenter (h_value ho1)
                       in ho1\<lparr>h_called_aenter := True, h_value := r, h_managed_value := v\<rparr>)
                 else ho1)
      in (case h_managed_value ho2 of
            None \<Rightarrow> (Inl (RuntimeError ''Not possible?''), ho2)
          | Some v \<Rightarrow> (Inr v, ho2)))"

text \<open>\<^verbatim>\<open>_Holder.close\<close>.\<close>

definition holder_close :: "('k, 'v) holder \<Rightarrow> ('k, 'v) holder" where
  "holder_close ho = ho\<lparr>h_value := resource_aexit (h_value ho)\<rparr>"

section \<open>The pool and the event loop\<close>

text \<open>
  The constructor's arguments \<^verbatim>\<open>_getter\<close>, \<^verbatim>\<open>_key\<close> and \<^verbatim>\<open>_ttl\<close> never change. The factory
  returns a new resource on every call; \<open>p_getter\<close> gives the entry result of that resource.
  Time is counted in ticks of the event loop's clock.
\<close>

record ('k, 'v) pool =
  p_getter :: "args \<Rightarrow> kwargs \<Rightarrow> 'v option"
  p_key :: "args \<Rightarrow> kwargs \<Rightarrow> error + 'k"
  p_ttl :: nat

text \<open>
  The mutable state: the dicts \<^verbatim>\<open>_instances\<close> and \<^verbatim>\<open>_timers\<close> (insertion-ordered, so
  association lists), the holder objects by address (callers keep references to holders, also
  after the pool has dropped them), and the event loop: its clock, the pending
  \<^verbatim>\<open>call_later\<close> handles with their time and key, and the \<^verbatim>\<open>_delete(key)\<close> tasks created by
  fired timers that have not run yet. \<open>factory_calls\<close> logs the calls of the factory.
\<close>

record ('k, 'v) state =
  instances :: "('k \<times> nat) list"
  timers :: "('k \<times> nat) list"
  heap :: "nat \<rightharpoonup> ('k, 'v) holder"
  next_holder :: nat
  clock :: nat
  scheduled :: "nat \<rightharpoonup> nat \<times> 'k"
  next_timer :: nat
  tasks :: "'k list"
  factory_calls :: "(args \<times> kwargs) list"

definition init :: "('k, 'v) state" where
  "init = \<lparr>instances = [], timers = [], heap = Map.empty, next_holder = 0, clock = 0,
           scheduled = Map.empty, next_timer = 0, tasks = [], factory_calls = []\<rparr>"

text \<open>\<^verbatim>\<open>Pool._stop_timer\<close>: pop the handle and cancel it (no effect on a handle that has fired).\<close>

definition stop_timer :: "'k \<Rightarrow> ('k, 'v) state \<Rightarrow> ('k, 'v) state" where
  "stop_timer k s =
     (case map_of (timers s) k of
        None \<Rightarrow> s
      | Some t \<Rightarrow> s\<lparr>timers := AList.delete k (timers s), scheduled := (scheduled s)(t := None)\<rparr>)"

text \<open>\<^verbatim>\<open>Pool._mark_for_deletion\<close>.\<close>

definition mark_for_deletion :: "('k, 'v) pool \<Rightarrow> 'k \<Rightarrow> ('k, 'v) state \<Rightarrow> ('k, 'v) state" where
  "mark_for_deletion p k s =
     (let s1 = stop_timer k s; t = next_timer s1
      in s1\<lparr>timers := AList.update k t (timers s1),
            scheduled := (scheduled s1)(t \<mapsto> (clock s1 + p_ttl p, k)),
            next_timer := Suc t\<rparr>)"

text \<open>\<^verbatim>\<open>Pool.get\<close>; the result is the address of the holder.\<close>

definition get :: "('k, 'v) pool \<Rightarrow> args \<Rightarrow> kwargs \<Rightarrow> ('k, 'v) state \<Rightarrow> (error + nat) \<times> ('k, 'v) state" where
  "get p args kwargs s =
     (case p_key p args kwargs of
        Inl e \<Rightarrow> (Inl e, s)
      | Inr k \<Rightarrow>
          (let s1 = stop_timer k s
           in (case map_of (instances s1) k of
                 Some h \<Rightarrow> (Inr h, s1)
               | None \<Rightarrow>
                   (let v = \<lparr>enter_result = p_getter p args kwargs, enter_called = 0, exit_called = 0\<rparr>;
                        h = next_holder s1
                    in (Inr h,
                        s1\<lparr>instances := AList.update k h (instances s1),
                           heap := (heap s1)(h \<mapsto> new_holder k v),
                           next_holder := Suc h,
                           factory_calls := factory_calls s1 @ [(args, kwargs)]\<rparr>)))))"

text \<open>
  \<^verbatim>\<open>_Holder.__aexit__\<close> on the holder at address \<open>h\<close>: the count is decremented first, then
  checked.
\<close>

definition holder_aexit ::
  "('k, 'v) pool \<Rightarrow> nat \<Rightarrow> ('k, 'v) holder \<Rightarrow> ('k, 'v) state \<Rightarrow> (error + unit) \<times> ('k, 'v) state" where
  "holder_aexit p h ho s =
     (let ho1 = ho\<lparr>h_count := h_count ho - 1\<rparr>;
          s1 = s\<lparr>heap := (heap s)(h \<mapsto> ho1)\<rparr>
      in if h_count ho1 < 0 then (Inl (RuntimeError ''__aexit__ called too many times''), s1)
         else if h_count ho1 = 0 then (Inr (), mark_for_deletion p (h_key ho1) s1)
         else (Inr (), s1))"

text \<open>
  \<^verbatim>\<open>Pool._delete\<close>. A Python reference is never dangling, so the popped address is in the heap
  (\<open>None\<close> there is the branch that cannot be taken).
\<close>

definition delete :: "'k \<Rightarrow> ('k, 'v) state \<Rightarrow> ('k, 'v) state" where
  "delete k s =
     (let s1 = stop_timer k s
      in (case map_of (instances s1) k of
            None \<Rightarrow> s1
          | Some h \<Rightarrow>
              (let s2 = s1\<lparr>instances := AList.delete k (instances s1)\<rparr>
               in (case heap s2 h of
                     None \<Rightarrow> s2
                   | Some ho \<Rightarrow> s2\<lparr>heap := (heap s2)(h \<mapsto> holder_close ho)\<rparr>))))"

text \<open>\<^verbatim>\<open>Pool.__aexit__\<close> and \<^verbatim>\<open>Pool.__len__\<close>.\<close>

definition pool_aexit :: "('k, 'v) state \<Rightarrow> ('k, 'v) state" where
  "pool_aexit s = fold delete (map fst (instances s)) s"

definition pool_len :: "('k, 'v) state \<Rightarrow> nat" where
  "pool_len s = length (instances s)"

text \<open>
  The event loop. A pending handle whose time has come may run: its callback creates the task
  \<^verbatim>\<open>self._delete(key)\<close>, which runs in a later iteration of the loop. The entry of \<^verbatim>\<open>_timers\<close>
  stays until \<^verbatim>\<open>_stop_timer\<close> pops it.
\<close>

definition fire :: "nat \<Rightarrow> ('k, 'v) state \<Rightarrow> ('k, 'v) state option" where
  "fire t s =
     (case scheduled s t of
        None \<Rightarrow> None
      | Some (d, k) \<Rightarrow>
          if d \<le> clock s then Some (s\<lparr>scheduled := (scheduled s)(t := None), tasks := tasks s @ [k]\<rparr>)
          else None)"

definition run_task :: "('k, 'v) state \<Rightarrow> ('k, 'v) state option" where
  "run_task s = (case tasks s of [] \<Rightarrow> None | k # ks \<Rightarrow> Some (delete k (s\<lparr>tasks := ks\<rparr>)))"

section \<open>Traces\<close>

text \<open>
  What can happen to a pool: a caller calls \<^verbatim>\<open>get\<close>, enters or leaves a holder it has a
  reference to, or leaves the pool's own scope; time passes; a due timer fires; a created
  deletion task runs. An exception is an outcome: the state keeps what the operation did
  before it raised. \<open>step\<close> is \<open>None\<close> for what cannot happen (a holder that was never
  created, a timer that is not pending or not due, no task to run).
\<close>

datatype action =
  Get args kwargs | Acquire nat | Release nat | Shutdown | Sleep nat | Fire nat | RunTask

datatype 'v ret = Holder nat | Value 'v | Done

fun step :: "('k, 'v) pool \<Rightarrow> ('k, 'v) state \<Rightarrow> action \<Rightarrow> ((error + 'v ret) \<times> ('k, 'v) state) option" where
  "step p s (Get a kw) =
     (case get p a kw s of (Inl e, s') \<Rightarrow> Some (Inl e, s') | (Inr h, s') \<Rightarrow> Some (Inr (Holder h), s'))"
| "step p s (Acquire h) =
     (case heap s h of
        None \<Rightarrow> None
      | Some ho \<Rightarrow>
          (case holder_aenter ho of
             (Inl e, ho') \<Rightarrow> Some (Inl e, s\<lparr>heap := (heap s)(h \<mapsto> ho')\<rparr>)
           | (Inr v, ho') \<Rightarrow> Some (Inr (Value v), s\<lparr>heap := (heap s)(h \<mapsto> ho')\<rparr>)))"
| "step p s (Release h) =
     (case heap s h of
        None \<Rightarrow> None
      | Some ho \<Rightarrow>
          (case holder_aexit p h ho s of
             (Inl e, s') \<Rightarrow> Some (Inl e, s')
           | (Inr _, s') \<Rightarrow> Some (Inr Done, s')))"
| "step p s Shutdown = Some (Inr Done, pool_aexit s)"
| "step p s (Sleep d) = Some (Inr Done, s\<lparr>clock := clock s + d\<rparr>)"
| "step p s (Fire t) = (case fire t s of None \<Rightarrow> None | Some s' \<Rightarrow> Some (Inr Done, s'))"
| "step p s RunTask = (case run_task s of None \<Rightarrow> None | Some s' \<Rightarrow> Some (Inr Done, s'))"

fun run :: "('k, 'v) pool \<Rightarrow> ('k, 'v) state \<Rightarrow> action list \<Rightarrow> ((error + 'v ret) list \<times> ('k, 'v) state) option" where
  "run p s [] = Some ([], s)"
| "run p s (a # as) =
     (case step p s a of
        None \<Rightarrow> None
      | Some (r, s') \<Rightarrow> (case run p s' as of None \<Rightarrow> None | Some (rs, s'') \<Rightarrow> Some (r # rs, s'')))"

section \<open>The pool of the test suite\<close>

text \<open>
  \<^verbatim>\<open>Pool(_Test)\<close> with the default key deriver and the default TTL: the resource made for
  \<^verbatim>\<open>_Test(message)\<close> returns itself on entry, here its arguments. The hash is taken to be the
  tuple itself, the best case for telling argument lists apart.
\<close>

definition test_pool :: "(pyval list, args) pool" where
  "test_pool = \<lparr>p_getter = (\<lambda>a kw. Some a), p_key = reduce_args (\<lambda>t. t), p_ttl = 30\<rparr>"

text \<open>The same pool over a factory whose resources return \<^verbatim>\<open>None\<close> on entry.\<close>

definition none_pool :: "(pyval list, args) pool" where
  "none_pool = \<lparr>p_getter = (\<lambda>a kw. None), p_key = reduce_args (\<lambda>t. t), p_ttl = 30\<rparr>"

section \<open>Properties of the key deriver\<close>

lemma append_kwargs_cong:
  "map_of kw1 = map_of kw2 \<Longrightarrow> append_kwargs kw1 ks hv = append_kwargs kw2 ks hv"
  by (induction ks arbitrary: hv) (auto split: option.splits)

lemma append_kwargs_total:
  "set ks \<subseteq> fst ` set kw \<Longrightarrow> \<exists>r. append_kwargs kw ks hv = Inr r"
proof (induction ks arbitrary: hv)
  case Nil
  then show ?case by simp
next
  case (Cons k ks)
  then obtain v where "map_of kw k = Some v"
    by (metis list.set_intros(1) subsetD weak_map_of_SomeI map_of_eq_None_iff not_Some_eq)
  with Cons show ?case by simp
qed

lemma sorted_keys_eq:
  assumes "distinct (map fst kw1)" "distinct (map fst kw2)" "map_of kw1 = map_of kw2"
  shows "sort (map fst kw1) = sort (map fst kw2)"
proof -
  have "fst ` set kw1 = fst ` set kw2"
    using assms(3) by (metis dom_map_of_conv_image_fst)
  then have "set (sort (map fst kw1)) = set (sort (map fst kw2))" by simp
  moreover have "distinct (sort (map fst kw1))" "distinct (sort (map fst kw2))"
    using assms by simp_all
  ultimately show ?thesis
    by (intro sorted_distinct_set_unique) simp_all
qed

lemma hash_values_total: "\<exists>r. hash_values args kw = Inr r"
  unfolding hash_values_def by (rule append_kwargs_total) simp

lemma hash_values_reorder:
  assumes "distinct (map fst kw1)" "distinct (map fst kw2)" "map_of kw1 = map_of kw2"
  shows "hash_values args kw1 = hash_values args kw2"
  unfolding hash_values_def
  using sorted_keys_eq [OF assms] append_kwargs_cong [OF assms(3)] by simp

lemma reduce_args_total: "\<exists>k. reduce_args hash args kw = Inr k"
  using hash_values_total [of args kw] by (auto simp: reduce_args_def)

lemma reduce_args_reorder:
  assumes "distinct (map fst kw1)" "distinct (map fst kw2)" "map_of kw1 = map_of kw2"
  shows "reduce_args hash args kw1 = reduce_args hash args kw2"
  by (simp add: reduce_args_def hash_values_reorder [OF assms])

text \<open>
  Claim C8. Key derivation is deterministic and does not depend on the order in which the
  named arguments are supplied: for equal positional arguments and named arguments that are
  equal as dicts (the same keys with the same values, in any order), the default deriver
  returns the same key, and it does return one (the subscript never raises).
\<close>

theorem reduce_args_named_order:
  assumes "distinct (map fst kw1)" and "distinct (map fst kw2)" and "map_of kw1 = map_of kw2"
  shows "reduce_args hash args kw1 = reduce_args hash args kw2
         \<and> (\<exists>k. reduce_args hash args kw1 = Inr k)"
  using reduce_args_reorder [OF assms] reduce_args_total by blast

lemma sort_ab: "sort [''b'', ''a''] = [''a'', ''b'']"
  by code_simp

theorem reduce_args_named_order_witness:
  "reduce_args (\<lambda>t. t) [PyInt 7] [(''b'', PyInt 2), (''a'', PyInt 1)]
     = reduce_args (\<lambda>t. t) [PyInt 7] [(''a'', PyInt 1), (''b'', PyInt 2)]
   \<and> reduce_args (\<lambda>t. t) [PyInt 7] [(''b'', PyInt 2), (''a'', PyInt 1)]
     = Inr [PyInt 7, PyStr ''a'', PyInt 1, PyStr ''b'', PyInt 2]"
proof -
  have d1: "distinct (map fst [(''b'', PyInt 2), (''a'', PyInt 1)])" by simp
  have d2: "distinct (map fst [(''a'', PyInt 1), (''b'', PyInt 2)])" by simp
  have m: "map_of [(''b'', PyInt 2), (''a'', PyInt 1)] = map_of [(''a'', PyInt 1), (''b'', PyInt 2)]"
    by (rule ext) simp
  have v: "reduce_args (\<lambda>t. t) [PyInt 7] [(''b'', PyInt 2), (''a'', PyInt 1)]
     = Inr [PyInt 7, PyStr ''a'', PyInt 1, PyStr ''b'', PyInt 2]"
    by (simp add: reduce_args_def hash_values_def sort_ab)
  from reduce_args_named_order [OF d1 d2 m, of "\<lambda>t. t" "[PyInt 7]"] v show ?thesis by simp
qed

end
